theory Spec2Isabelle
  imports Main "HOL-Library.Char_ord" "HOL-Library.List_Lexorder"
begin

section \<open>The settings file of Intu\_Player2.2.py\<close>

text \<open>
  The player keeps its state in \<^verbatim>\<open>settings.json\<close>.  \<^verbatim>\<open>json.dump\<close> and
  \<^verbatim>\<open>json.load\<close> belong to the Python library, so the file is modelled by what
  \<^verbatim>\<open>open(SETTINGS_FILE, "r", encoding="utf-8")\<close> followed by \<^verbatim>\<open>json.load\<close> makes of it:
  the bytes are not UTF-8 (\<^verbatim>\<open>UnicodeDecodeError\<close>), the text is not a JSON document
  (\<^verbatim>\<open>json.JSONDecodeError\<close>; the empty file is such a text), or the text is a JSON
  document with a value.  A JSON object is the Python \<^verbatim>\<open>dict\<close> it is loaded into,
  kept as an association list that is read with \<open>map_of\<close>.  Floating point numbers are
  left out.
\<close>

datatype json =
    JNull
  | JBool bool
  | JInt int
  | JStr string
  | JArr "json list"
  | JObj "(string \<times> json) list"

datatype content = NotUtf8 | NotJson | Doc json

type_synonym disk = "content option"

datatype exn = AttributeError | UnicodeDecodeError | ValueError

text \<open>Python's truth value of a loaded JSON value (\<^verbatim>\<open>if geometry_base64:\<close>).\<close>

fun truthy :: "json \<Rightarrow> bool" where
  "truthy JNull = False"
| "truthy (JBool b) = b"
| "truthy (JInt n) = (n \<noteq> 0)"
| "truthy (JStr s) = (s \<noteq> [])"
| "truthy (JArr xs) = (xs \<noteq> [])"
| "truthy (JObj kvs) = (kvs \<noteq> [])"

text \<open>
  \<^verbatim>\<open>data.get(key, default)\<close>: only a \<^verbatim>\<open>dict\<close> has the method; on a list, a string,
  a number, a boolean or \<^verbatim>\<open>None\<close> the attribute lookup raises \<^verbatim>\<open>AttributeError\<close>.
\<close>

fun py_get :: "json \<Rightarrow> string \<Rightarrow> json \<Rightarrow> exn + json" where
  "py_get (JObj kvs) k dflt = Inr (case map_of kvs k of None \<Rightarrow> dflt | Some v \<Rightarrow> v)"
| "py_get _ k dflt = Inl AttributeError"

text \<open>
  \<^verbatim>\<open>geometry_base64.encode('utf-8')\<close>: only a \<^verbatim>\<open>str\<close> has the method.  The decoded
  \<^verbatim>\<open>QByteArray\<close> is opaque to the program; the model keeps the base-64 text it was
  made from.
\<close>

fun encode_base64 :: "json \<Rightarrow> exn + string" where
  "encode_base64 (JStr s) = Inr s"
| "encode_base64 _ = Inl AttributeError"

text \<open>
  The five attributes that \<^verbatim>\<open>load_settings\<close> assigns.  Python does not check what it
  reads, so the first four hold whatever JSON value the file has under the key.
\<close>

record settings =
  s_last_dir :: json
  s_last_device_desc :: json
  s_playlist_memory :: json
  s_current_file_path :: json
  s_window_geometry :: "string option"

text \<open>The values \<^verbatim>\<open>__init__\<close> assigns just before it calls \<^verbatim>\<open>load_settings\<close>.\<close>

definition default_settings :: settings where
  "default_settings =
     \<lparr> s_last_dir = JStr [], s_last_device_desc = JStr [], s_playlist_memory = JArr [],
       s_current_file_path = JNull, s_window_geometry = None \<rparr>"

text \<open>
  \<^verbatim>\<open>load_settings\<close> (source lines 458-471).  Nothing happens when the file does not
  exist; \<^verbatim>\<open>json.JSONDecodeError\<close> is the one exception that is caught, and it can only
  come from \<^verbatim>\<open>json.load\<close>, before the first assignment.  Every other exception leaves
  the method (\<open>Inl\<close>).
\<close>

definition load_settings :: "disk \<Rightarrow> settings \<Rightarrow> exn + settings" where
  "load_settings d s =
     (case d of
        None \<Rightarrow> Inr s
      | Some NotUtf8 \<Rightarrow> Inl UnicodeDecodeError
      | Some NotJson \<Rightarrow> Inr s
      | Some (Doc data) \<Rightarrow>
          (case py_get data ''last_dir'' (JStr []) of Inl e \<Rightarrow> Inl e | Inr v1 \<Rightarrow>
          (case py_get data ''last_device_desc'' (JStr []) of Inl e \<Rightarrow> Inl e | Inr v2 \<Rightarrow>
          (case py_get data ''playlist_memory'' (JArr []) of Inl e \<Rightarrow> Inl e | Inr v3 \<Rightarrow>
          (case py_get data ''current_file_path'' JNull of Inl e \<Rightarrow> Inl e | Inr v4 \<Rightarrow>
          (case py_get data ''window_geometry'' JNull of Inl e \<Rightarrow> Inl e | Inr geometry_base64 \<Rightarrow>
             (let s' = s\<lparr> s_last_dir := v1, s_last_device_desc := v2,
                         s_playlist_memory := v3, s_current_file_path := v4 \<rparr>
              in if truthy geometry_base64
                 then (case encode_base64 geometry_base64 of
                         Inl e \<Rightarrow> Inl e
                       | Inr b \<Rightarrow> Inr (s'\<lparr> s_window_geometry := Some b \<rparr>))
                 else Inr s')))))))"

text \<open>
  \<^verbatim>\<open>save_settings\<close> (source lines 447-456).  \<open>geom\<close> is the text
  \<^verbatim>\<open>self.saveGeometry().toBase64().data().decode('utf-8')\<close> that the window gives.
  \<^verbatim>\<open>open(SETTINGS_FILE, "w")\<close> creates the file or truncates it to the empty text, and
  \<^verbatim>\<open>json.dump\<close> then writes the document into that same file.
\<close>

definition settings_data :: "settings \<Rightarrow> string \<Rightarrow> json" where
  "settings_data s geom =
     JObj [(''last_dir'', s_last_dir s),
           (''last_device_desc'', s_last_device_desc s),
           (''playlist_memory'', s_playlist_memory s),
           (''current_file_path'', s_current_file_path s),
           (''window_geometry'', JStr geom)]"

definition open_w :: "disk \<Rightarrow> disk" where
  "open_w d = Some NotJson"

definition json_dump :: "json \<Rightarrow> disk \<Rightarrow> disk" where
  "json_dump data d = Some (Doc data)"

definition save_settings :: "settings \<Rightarrow> string \<Rightarrow> disk \<Rightarrow> disk" where
  "save_settings s geom d = json_dump (settings_data s geom) (open_w d)"


section \<open>Paths, directory listings and the playback engine\<close>

text \<open>
  Paths are Python strings; the model keeps them as byte strings in UTF-8, whose
  lexicographic order is the order of the code points that Python compares.
  \<^verbatim>\<open>os.path\<close> is modelled by \<^verbatim>\<open>posixpath\<close>; \<^verbatim>\<open>str.rfind\<close> gives the last position
  of a character, or \<open>-1\<close>.
\<close>

definition rfind :: "char \<Rightarrow> string \<Rightarrow> int" where
  "rfind c p =
     (case filter (\<lambda>i. p ! i = c) [0..<length p] of
        [] \<Rightarrow> - 1
      | i # js \<Rightarrow> int (last (i # js)))"

definition rstrip :: "char \<Rightarrow> string \<Rightarrow> string" where
  "rstrip c p = rev (dropWhile (\<lambda>x. x = c) (rev p))"

definition dirname :: "string \<Rightarrow> string" where
  "dirname p =
     (let i = rfind CHR ''/'' p + 1;
          head = take (nat i) p
      in if head \<noteq> [] \<and> head \<noteq> replicate (length head) CHR ''/''
         then rstrip CHR ''/'' head else head)"

definition basename :: "string \<Rightarrow> string" where
  "basename p = drop (nat (rfind CHR ''/'' p + 1)) p"

text \<open>
  The loop of \<^verbatim>\<open>genericpath._splitext\<close> that skips leading dots: it answers whether
  a character other than a dot stands between the last separator and the last dot.
\<close>

fun has_non_dot :: "string \<Rightarrow> bool" where
  "has_non_dot [] = False"
| "has_non_dot (c # cs) = (if c \<noteq> CHR ''.'' then True else has_non_dot cs)"

definition splitext :: "string \<Rightarrow> string \<times> string" where
  "splitext p =
     (let sepIndex = rfind CHR ''/'' p;
          dotIndex = rfind CHR ''.'' p
      in if dotIndex > sepIndex
            \<and> has_non_dot (take (nat (dotIndex - (sepIndex + 1))) (drop (nat (sepIndex + 1)) p))
         then (take (nat dotIndex) p, drop (nat dotIndex) p)
         else (p, []))"

text \<open>
  What the program asks of the world outside: the path separator, \<^verbatim>\<open>os.path.abspath\<close>,
  \<^verbatim>\<open>os.path.isdir\<close>, \<^verbatim>\<open>os.path.exists\<close>, the absolute file paths of the entries that
  \<^verbatim>\<open>QDir(directory).entryInfoList(name_filters, Files | NoDotAndDotDot)\<close> returns, in
  the order in which it returns them, and \<^verbatim>\<open>pypinyin.lazy_pinyin\<close>.
\<close>

record os_env =
  os_sep :: char
  abspath :: "string \<Rightarrow> string"
  isdir :: "string \<Rightarrow> bool"
  path_exists :: "string \<Rightarrow> bool"
  entry_files :: "string \<Rightarrow> string list"
  lazy_pinyin :: "string \<Rightarrow> string list"

text \<open>\<^verbatim>\<open>path.replace(os.sep, '/')\<close>.\<close>

definition replace_sep :: "os_env \<Rightarrow> string \<Rightarrow> string" where
  "replace_sep env p = map (\<lambda>c. if c = os_sep env then CHR ''/'' else c) p"

text \<open>The sort key \<^verbatim>\<open>''.join(lazy_pinyin(os.path.basename(path)))\<close>.\<close>

definition pinyin_key :: "os_env \<Rightarrow> string \<Rightarrow> string" where
  "pinyin_key env path = concat (lazy_pinyin env (basename path))"

text \<open>
  \<^verbatim>\<open>QMediaPlayer\<close>, as far as the program drives it: \<^verbatim>\<open>stop\<close> ends playback and
  rewinds, \<^verbatim>\<open>setSource\<close> stops the player and takes the new source, \<^verbatim>\<open>setPosition\<close>
  moves the offset, \<^verbatim>\<open>play\<close> and \<^verbatim>\<open>pause\<close> set the playback state.
\<close>

datatype playback_state = StoppedState | PlayingState | PausedState

record media_player =
  source :: "string option"
  position :: int
  playbackState :: playback_state

definition player_stop :: "media_player \<Rightarrow> media_player" where
  "player_stop m = m\<lparr> playbackState := StoppedState, position := 0 \<rparr>"

definition player_setSource :: "string \<Rightarrow> media_player \<Rightarrow> media_player" where
  "player_setSource p m = (player_stop m)\<lparr> source := Some p \<rparr>"

definition player_setPosition :: "int \<Rightarrow> media_player \<Rightarrow> media_player" where
  "player_setPosition pos m = m\<lparr> position := pos \<rparr>"

definition player_play :: "media_player \<Rightarrow> media_player" where
  "player_play m = m\<lparr> playbackState := PlayingState \<rparr>"

definition player_pause :: "media_player \<Rightarrow> media_player" where
  "player_pause m = m\<lparr> playbackState := PausedState \<rparr>"

section \<open>The AudioPlayer object\<close>

text \<open>
  The attributes of \<^verbatim>\<open>AudioPlayer\<close> that the playlist operations read and write, with
  the types the operations give them: a directory, a device description, lists of paths,
  an optional path.  \<open>geometry\<close> is the base-64 text of \<^verbatim>\<open>self.saveGeometry()\<close> and
  \<open>settings_file\<close> the file \<^verbatim>\<open>settings.json\<close>.  The user interface widgets are not
  modelled.
\<close>

record audio_player =
  last_dir :: string
  last_device_desc :: string
  playlist_memory :: "string list"
  current_file_path :: "string option"
  playlist :: "string list"
  current_index :: int
  current_image_path :: "string option"
  player :: media_player
  geometry :: string
  settings_file :: disk

text \<open>The values of the attributes as \<^verbatim>\<open>json.dump\<close> writes them.\<close>

definition to_settings :: "audio_player \<Rightarrow> settings" where
  "to_settings s =
     \<lparr> s_last_dir = JStr (last_dir s),
       s_last_device_desc = JStr (last_device_desc s),
       s_playlist_memory = JArr (map JStr (playlist_memory s)),
       s_current_file_path = (case current_file_path s of None \<Rightarrow> JNull | Some p \<Rightarrow> JStr p),
       s_window_geometry = None \<rparr>"

definition save_self :: "audio_player \<Rightarrow> audio_player" where
  "save_self s = s\<lparr> settings_file := save_settings (to_settings s) (geometry s) (settings_file s) \<rparr>"

text \<open>
  \<^verbatim>\<open>list.index\<close>: the position of the first equal element; \<^verbatim>\<open>ValueError\<close> when there
  is none.
\<close>

definition first_index :: "'a list \<Rightarrow> 'a \<Rightarrow> nat" where
  "first_index xs x = length (takeWhile (\<lambda>y. y \<noteq> x) xs)"

definition py_index :: "'a list \<Rightarrow> 'a \<Rightarrow> exn + nat" where
  "py_index xs x = (if x \<in> set xs then Inr (first_index xs x) else Inl ValueError)"

text \<open>
  \<^verbatim>\<open>load_image\<close> (source lines 429-444): the loop over the extensions with its
  \<^verbatim>\<open>break\<close>.
\<close>

definition IMAGE_EXTENSIONS :: "string list" where
  "IMAGE_EXTENSIONS = [''.jpg'', ''.jpeg'', ''.png'', ''.bmp'', ''.gif'']"

fun first_existing :: "(string \<Rightarrow> bool) \<Rightarrow> string \<Rightarrow> string list \<Rightarrow> string option" where
  "first_existing ex base_path [] = None"
| "first_existing ex base_path (ext # exts) =
     (if ex (base_path @ ext) then Some (base_path @ ext)
      else first_existing ex base_path exts)"

definition load_image :: "os_env \<Rightarrow> string \<Rightarrow> audio_player \<Rightarrow> audio_player" where
  "load_image env audio_path s =
     s\<lparr> current_image_path :=
          first_existing (path_exists env) (fst (splitext audio_path)) IMAGE_EXTENSIONS \<rparr>"

text \<open>\<^verbatim>\<open>play_file\<close> (source lines 358-365).\<close>

definition play_file :: "os_env \<Rightarrow> string \<Rightarrow> audio_player \<Rightarrow> audio_player" where
  "play_file env file_path s =
     (let s1 = s\<lparr> current_file_path := Some file_path \<rparr>;
          s2 = s1\<lparr> player := player_setSource file_path (player_stop (player s1)) \<rparr>;
          s3 = load_image env file_path s2;
          s4 = s3\<lparr> player := player_play (player s3) \<rparr>
      in save_self s4)"

text \<open>
  \<^verbatim>\<open>load_directory_to_playlist\<close> (source lines 342-356).  \<^verbatim>\<open>list.sort(key=...)\<close> is a
  stable sort by the key alone, as \<open>sort_key\<close> is.
\<close>

definition load_directory_to_playlist :: "os_env \<Rightarrow> string \<Rightarrow> audio_player \<Rightarrow> audio_player" where
  "load_directory_to_playlist env directory s =
     (let files = map (replace_sep env) (entry_files env directory);
          files = sort_key (pinyin_key env) files
      in s\<lparr> playlist := files, playlist_memory := files \<rparr>)"

text \<open>
  \<^verbatim>\<open>open_file\<close> (source lines 288-301); \<open>file_path\<close> is what the file dialog returns,
  the empty string when it is cancelled.
\<close>

definition open_file :: "os_env \<Rightarrow> string \<Rightarrow> audio_player \<Rightarrow> audio_player" where
  "open_file env file_path s =
     (if file_path = [] then s
      else
        let s1 = s\<lparr> last_dir := dirname file_path \<rparr>;
            normalized = replace_sep env (abspath env file_path);
            s2 = load_directory_to_playlist env (dirname normalized) s1;
            s3 = play_file env normalized s2;
            s4 = (case py_index (playlist s3) normalized of
                    Inr i \<Rightarrow> s3\<lparr> current_index := int i \<rparr>
                  | Inl e \<Rightarrow> s3\<lparr> current_index := - 1 \<rparr>)
        in save_self s4)"

text \<open>\<^verbatim>\<open>stop\<close> (source lines 385-387).\<close>

definition stop :: "audio_player \<Rightarrow> audio_player" where
  "stop s = s\<lparr> player := player_stop (player s) \<rparr>"

text \<open>
  \<^verbatim>\<open>reload_current_directory_playlist\<close> (source lines 304-339).  \<open>in_playlist\<close> is
  \<^verbatim>\<open>self.current_file_path in self.playlist\<close>, false for \<^verbatim>\<open>None\<close> in a list of paths.
\<close>

definition in_playlist :: "audio_player \<Rightarrow> bool" where
  "in_playlist s = (case current_file_path s of None \<Rightarrow> False | Some p \<Rightarrow> p \<in> set (playlist s))"

definition reload_dir :: "audio_player \<Rightarrow> string option" where
  "reload_dir s =
     (if (case current_file_path s of None \<Rightarrow> False | Some p \<Rightarrow> p \<noteq> [])
      then map_option dirname (current_file_path s)
      else if last_dir s \<noteq> [] then Some (last_dir s)
      else None)"

definition reload_current_directory_playlist :: "os_env \<Rightarrow> audio_player \<Rightarrow> audio_player" where
  "reload_current_directory_playlist env s =
     save_self
       (case reload_dir s of
          None \<Rightarrow> s
        | Some current_dir \<Rightarrow>
            if current_dir \<noteq> [] \<and> isdir env current_dir then
              let was_playing = (playbackState (player s) = PlayingState);
                  current_pos = (if was_playing then position (player s) else 0);
                  s1 = load_directory_to_playlist env current_dir s
              in (case current_file_path s1 of
                    Some p \<Rightarrow>
                      if in_playlist s1 then
                        let s2 = s1\<lparr> current_index := int (first_index (playlist s1) p) \<rparr>;
                            s3 = s2\<lparr> player := player_setPosition current_pos
                                               (player_setSource p (player s2)) \<rparr>
                        in if was_playing then s3\<lparr> player := player_play (player s3) \<rparr> else s3
                      else (stop s1)\<lparr> current_index := - 1, current_file_path := None \<rparr>
                  | None \<Rightarrow> (stop s1)\<lparr> current_index := - 1, current_file_path := None \<rparr>)
            else s)"

text \<open>
  \<^verbatim>\<open>playlist_file_double_clicked\<close> (source lines 367-375).  The \<^verbatim>\<open>ValueError\<close> of
  \<^verbatim>\<open>list.index\<close> is caught and dropped; any other exception would leave the method.
\<close>

definition playlist_file_double_clicked :: "os_env \<Rightarrow> string \<Rightarrow> audio_player \<Rightarrow> exn + audio_player" where
  "playlist_file_double_clicked env file_path s =
     (case py_index (playlist s) file_path of
        Inr index \<Rightarrow>
          if index < length (playlist s)
          then Inr (play_file env (playlist s ! index) (s\<lparr> current_index := int index \<rparr>))
          else Inr s
      | Inl ValueError \<Rightarrow> Inr s
      | Inl e \<Rightarrow> Inl e)"

text \<open>
  \<^verbatim>\<open>play_previous\<close> and \<^verbatim>\<open>play_next\<close> (source lines 389-399).  Python's \<^verbatim>\<open>%\<close> with a
  positive divisor is \<open>mod\<close> on \<open>int\<close>: the result is never negative.
\<close>

definition play_previous :: "os_env \<Rightarrow> audio_player \<Rightarrow> audio_player" where
  "play_previous env s =
     (if playlist s = [] then s
      else
        let s1 = s\<lparr> current_index := (current_index s - 1) mod int (length (playlist s)) \<rparr>
        in play_file env (playlist s1 ! nat (current_index s1)) s1)"

definition play_next :: "os_env \<Rightarrow> audio_player \<Rightarrow> audio_player" where
  "play_next env s =
     (if playlist s = [] then s
      else
        let s1 = s\<lparr> current_index := (current_index s + 1) mod int (length (playlist s)) \<rparr>
        in play_file env (playlist s1 ! nat (current_index s1)) s1)"

text \<open>\<^verbatim>\<open>play_pause\<close> and \<^verbatim>\<open>handle_media_status_change\<close> (source lines 377-383, 404-406).\<close>

definition play_pause :: "audio_player \<Rightarrow> audio_player" where
  "play_pause s =
     (if playbackState (player s) = PlayingState
      then s\<lparr> player := player_pause (player s) \<rparr>
      else s\<lparr> player := player_play (player s) \<rparr>)"

datatype media_status = EndOfMedia | OtherStatus

definition handle_media_status_change :: "os_env \<Rightarrow> media_status \<Rightarrow> audio_player \<Rightarrow> audio_player" where
  "handle_media_status_change env status s = (if status = EndOfMedia then play_next env s else s)"

section \<open>Start-up and the events of the user interface\<close>

text \<open>
  The object that \<^verbatim>\<open>__init__\<close> builds from the loaded settings (source lines 133-162),
  and the part of \<^verbatim>\<open>__init__\<close> that takes the remembered playlist back (source lines
  249-260).
\<close>

definition new_player ::
  "string \<Rightarrow> string \<Rightarrow> string list \<Rightarrow> string option \<Rightarrow> string \<Rightarrow> disk \<Rightarrow> audio_player" where
  "new_player ld dev mem cur geom d =
     \<lparr> last_dir = ld, last_device_desc = dev, playlist_memory = mem, current_file_path = cur,
       playlist = [], current_index = - 1, current_image_path = None,
       player = \<lparr> source = None, position = 0, playbackState = StoppedState \<rparr>,
       geometry = geom, settings_file = d \<rparr>"

definition restore_playlist :: "os_env \<Rightarrow> audio_player \<Rightarrow> exn + audio_player" where
  "restore_playlist env s =
     (if playlist_memory s \<noteq> [] then
        let s1 = s\<lparr> playlist := playlist_memory s \<rparr>
        in (case current_file_path s1 of
              Some p \<Rightarrow>
                if in_playlist s1
                then playlist_file_double_clicked env p
                       (s1\<lparr> current_index := int (first_index (playlist s1) p) \<rparr>)
                else Inr s1
            | None \<Rightarrow> Inr s1)
      else Inr s)"

text \<open>
  The handlers that the widgets and the player's signals call.  \<open>OpenFile p\<close> carries
  the answer of the file dialog, \<open>SliderMoved\<close> the new offset; \<^verbatim>\<open>closeEvent\<close> saves
  the settings.  \<^verbatim>\<open>change\_audio\_device\<close> assigns neither the playlist nor the cursor
  nor the current path and is left out.
\<close>

datatype event =
    OpenFile string
  | Refresh
  | DoubleClick string
  | Previous
  | Next
  | PlayPause
  | Stop
  | SliderMoved int
  | MediaStatusChanged media_status
  | CloseWindow

fun step :: "os_env \<Rightarrow> event \<Rightarrow> audio_player \<Rightarrow> exn + audio_player" where
  "step env (OpenFile p) s = Inr (open_file env p s)"
| "step env Refresh s = Inr (reload_current_directory_playlist env s)"
| "step env (DoubleClick p) s = playlist_file_double_clicked env p s"
| "step env Previous s = Inr (play_previous env s)"
| "step env Next s = Inr (play_next env s)"
| "step env PlayPause s = Inr (play_pause s)"
| "step env Stop s = Inr (stop s)"
| "step env (SliderMoved pos) s = Inr (s\<lparr> player := player_setPosition pos (player s) \<rparr>)"
| "step env (MediaStatusChanged status) s = Inr (handle_media_status_change env status s)"
| "step env CloseWindow s = Inr (save_self s)"

text \<open>
  The states the program can be in: the one after start-up, and those that an event
  leads to.  The file system, and so \<open>env\<close>, may differ from one event to the next.
\<close>

inductive reachable :: "audio_player \<Rightarrow> bool" where
  start: "restore_playlist env (new_player ld dev mem cur geom d) = Inr s \<Longrightarrow> reachable s"
| event: "reachable s \<Longrightarrow> step env ev s = Inr s' \<Longrightarrow> reachable s'"

section \<open>The properties as the specification words them\<close>

text \<open>
  The invariant of the cursor (specification, section 3): \<open>-1\<close> if and only if the
  playlist is empty or holds no entry equal to the current file path; otherwise an index
  of the playlist whose entry is the current file path.
\<close>

definition cursor_inv :: "audio_player \<Rightarrow> bool" where
  "cursor_inv s \<longleftrightarrow>
     (current_index s = - 1 \<longleftrightarrow> playlist s = [] \<or> \<not> in_playlist s)
     \<and> (current_index s \<noteq> - 1 \<longrightarrow>
          0 \<le> current_index s \<and> current_index s < int (length (playlist s))
          \<and> current_file_path s = Some (playlist s ! nat (current_index s)))"

text \<open>
  The order of a scan as the specification words it (section 4.2): by the
  transliterated key, ties broken by the original file name.
\<close>

definition spec_scan_order :: "os_env \<Rightarrow> string \<Rightarrow> string \<Rightarrow> bool" where
  "spec_scan_order env p q \<longleftrightarrow>
     pinyin_key env p < pinyin_key env q
     \<or> (pinyin_key env p = pinyin_key env q \<and> basename p \<le> basename q)"

section \<open>The order of a directory listing\<close>

text \<open>
  \<^verbatim>\<open>entryInfoList\<close> is called without a sort flag (source line 348), so \<^verbatim>\<open>QDir\<close> lists
  the entries in its default order \<^verbatim>\<open>Name | IgnoreCase\<close>: by the lower-cased file name,
  compared as \<^verbatim>\<open>QString\<close> compares, code unit by code unit in UTF-16.  \<open>utf8_decode\<close>
  gives the code points of a name that is kept in UTF-8 and \<open>utf16\<close> the code units of a
  code point; of the letters only \<^verbatim>\<open>A\<close> to \<^verbatim>\<open>Z\<close> are lowered here.
\<close>

fun utf8_decode :: "string \<Rightarrow> nat list" where
  "utf8_decode [] = []"
| "utf8_decode [a] = [of_char a]"
| "utf8_decode [a, b] =
     (if (of_char a :: nat) < 0x80 then of_char a # utf8_decode [b]
      else [(of_char a mod 0x20) * 0x40 + of_char b mod 0x40])"
| "utf8_decode [a, b, c] =
     (if (of_char a :: nat) < 0x80 then of_char a # utf8_decode [b, c]
      else if (of_char a :: nat) < 0xE0
      then ((of_char a mod 0x20) * 0x40 + of_char b mod 0x40) # utf8_decode [c]
      else [(of_char a mod 0x10) * 0x1000 + (of_char b mod 0x40) * 0x40 + of_char c mod 0x40])"
| "utf8_decode (a # b # c # d # es) =
     (if (of_char a :: nat) < 0x80 then of_char a # utf8_decode (b # c # d # es)
      else if (of_char a :: nat) < 0xE0
      then ((of_char a mod 0x20) * 0x40 + of_char b mod 0x40) # utf8_decode (c # d # es)
      else if (of_char a :: nat) < 0xF0
      then ((of_char a mod 0x10) * 0x1000 + (of_char b mod 0x40) * 0x40 + of_char c mod 0x40)
             # utf8_decode (d # es)
      else ((of_char a mod 0x08) * 0x40000 + (of_char b mod 0x40) * 0x1000
              + (of_char c mod 0x40) * 0x40 + of_char d mod 0x40) # utf8_decode es)"

definition utf16 :: "nat \<Rightarrow> nat list" where
  "utf16 cp =
     (if cp < 0x10000 then [cp]
      else [0xD800 + (cp - 0x10000) div 0x400, 0xDC00 + (cp - 0x10000) mod 0x400])"

definition qt_lower :: "nat \<Rightarrow> nat" where
  "qt_lower cp = (if 0x41 \<le> cp \<and> cp \<le> 0x5A then cp + 0x20 else cp)"

definition qdir_name_key :: "string \<Rightarrow> nat list" where
  "qdir_name_key p = concat (map (\<lambda>cp. utf16 (qt_lower cp)) (utf8_decode (basename p)))"

definition qdir_order :: "string list \<Rightarrow> bool" where
  "qdir_order files \<longleftrightarrow> sorted (map qdir_name_key files)"

section \<open>A sample directory\<close>

text \<open>
  The directory \<^verbatim>\<open>/m\<close> of the example in the specification (section 8): three audio
  files, one of which is named by the Chinese character U+554A (three bytes in UTF-8),
  which \<^verbatim>\<open>lazy_pinyin\<close> turns into \<^verbatim>\<open>a\<close>; two images beside \<^verbatim>\<open>b.mp3\<close>.
  \<open>sample_env\<close> lists the files by name, as \<^verbatim>\<open>QDir\<close> does by default.

  The directory \<^verbatim>\<open>/z\<close> holds two files named by one character each: U+2298F, outside
  the basic plane (four bytes in UTF-8, the surrogate pair D84A DD8F in UTF-16), and the
  private-use code point U+E83B, under which GB 18030 carried the same character (three
  bytes in UTF-8, one code unit in UTF-16).  \<^verbatim>\<open>lazy_pinyin\<close> reads both as \<^verbatim>\<open>zai\<close>.
  \<open>qdir_env\<close> lists them as \<^verbatim>\<open>QDir\<close> does.
\<close>

definition hanzi_a :: string where
  "hanzi_a = [CHR 0xE5, CHR 0x95, CHR 0x8A]"

definition han_zai :: string where
  "han_zai = [CHR 0xF0, CHR 0xA2, CHR 0xA6, CHR 0x8F]"

definition pua_zai :: string where
  "pua_zai = [CHR 0xEE, CHR 0xA0, CHR 0xBB]"

definition sample_pinyin :: "string \<Rightarrow> string list" where
  "sample_pinyin name =
     (if take 3 name = hanzi_a then [''a'', drop 3 name]
      else if take 4 name = han_zai then [''zai'', drop 4 name]
      else if take 3 name = pua_zai then [''zai'', drop 3 name]
      else [name])"

definition sample_env :: os_env where
  "sample_env =
     \<lparr> os_sep = CHR ''/'',
       abspath = (\<lambda>p. p),
       isdir = (\<lambda>p. p = ''/m''),
       path_exists = (\<lambda>p. p \<in> set [''/m'', ''/m/a.mp3'', ''/m/b.mp3'', ''/m/'' @ hanzi_a @ ''.mp3'',
                                     ''/m/b.png'', ''/m/b.gif'']),
       entry_files = (\<lambda>d. if d = ''/m''
                           then [''/m/a.mp3'', ''/m/b.mp3'', ''/m/'' @ hanzi_a @ ''.mp3''] else []),
       lazy_pinyin = sample_pinyin \<rparr>"

definition qdir_env :: os_env where
  "qdir_env =
     sample_env\<lparr> isdir := (\<lambda>p. p = ''/z''),
                 entry_files :=
       (\<lambda>d. if d = ''/z''
             then [''/z/'' @ han_zai @ ''.mp3'', ''/z/'' @ pua_zai @ ''.mp3''] else []) \<rparr>"

text \<open>
  A player that has just started with nothing remembered, one with a remembered
  playlist and no selection, and one that plays \<^verbatim>\<open>/m/b.mp3\<close> at offset 5000.
\<close>

definition fresh_player :: audio_player where
  "fresh_player = new_player [] [] [] None ''AAAA'' None"

definition unselected_player :: audio_player where
  "unselected_player =
     (new_player ''/m'' [] [''/m/a.mp3'', ''/m/b.mp3''] None ''AAAA'' None)
       \<lparr> playlist := [''/m/a.mp3'', ''/m/b.mp3''] \<rparr>"

definition playing_player :: audio_player where
  "playing_player =
     (new_player ''/m'' [] [''/m/a.mp3'', ''/m/b.mp3''] (Some ''/m/b.mp3'') ''AAAA'' None)
       \<lparr> playlist := [''/m/a.mp3'', ''/m/b.mp3''], current_index := 1,
         player := \<lparr> source = Some ''/m/b.mp3'', position = 5000, playbackState = PlayingState \<rparr> \<rparr>"

section \<open>Properties of the settings file\<close>

lemma load_settings_missing: "load_settings None s = Inr s"
  by (simp add: load_settings_def)

lemma load_settings_not_json: "load_settings (Some NotJson) s = Inr s"
  by (simp add: load_settings_def)

lemma load_settings_not_utf8: "load_settings (Some NotUtf8) s = Inl UnicodeDecodeError"
  by (simp add: load_settings_def)

lemma load_settings_geometry_not_str:
  "load_settings (Some (Doc (JObj [(''window_geometry'', JInt 1)]))) s = Inl AttributeError"
  by (simp add: load_settings_def)

lemma save_self_then_load:
  "\<exists>S'. load_settings (settings_file (save_self s)) S0 = Inr S'
       \<and> s_last_dir S' = JStr (last_dir s)
       \<and> s_last_device_desc S' = JStr (last_device_desc s)
       \<and> s_playlist_memory S' = JArr (map JStr (playlist_memory s))
       \<and> s_current_file_path S' = (case current_file_path s of None \<Rightarrow> JNull | Some p \<Rightarrow> JStr p)"
  by (simp add: load_settings_def save_self_def save_settings_def json_dump_def settings_data_def
        to_settings_def Let_def)


text \<open>
  C2.  The claim says that \<open>load\<close> never raises, whatever the file holds.  The code
  keeps the defaults when the file is missing or is not a JSON document (the two lemmas
  at the head of this section).  But a settings file whose text is the JSON document
  \<^verbatim>\<open>[]\<close> is read without a \<^verbatim>\<open>JSONDecodeError\<close>, and the first \<^verbatim>\<open>data.get\<close> then
  raises \<^verbatim>\<open>AttributeError\<close>, which \<^verbatim>\<open>load_settings\<close> does not catch.
\<close>

theorem load_settings_raises_on_json_array:
  "load_settings (Some (Doc (JArr []))) default_settings = Inl AttributeError"
  by (simp add: load_settings_def)



section \<open>Moving through the playlist\<close>

lemma play_file_fields:
  "playlist (play_file env p s) = playlist s"
  "current_index (play_file env p s) = current_index s"
  "current_file_path (play_file env p s) = Some p"
  "source (player (play_file env p s)) = Some p"
  "position (player (play_file env p s)) = 0"
  "playbackState (player (play_file env p s)) = PlayingState"
  "last_dir (play_file env p s) = last_dir s"
  by (simp_all add: play_file_def Let_def save_self_def load_image_def player_play_def
        player_setSource_def player_stop_def)

lemma save_self_fields:
  "playlist (save_self s) = playlist s"
  "current_index (save_self s) = current_index s"
  "current_file_path (save_self s) = current_file_path s"
  "player (save_self s) = player s"
  by (simp_all add: save_self_def)

lemma in_playlist_save_self: "in_playlist (save_self s) = in_playlist s"
  by (simp add: in_playlist_def save_self_fields split: option.splits)

lemma first_index_less: "x \<in> set xs \<Longrightarrow> first_index xs x < length xs"
  unfolding first_index_def by (induction xs) auto

lemma first_index_nth: "x \<in> set xs \<Longrightarrow> xs ! first_index xs x = x"
  unfolding first_index_def by (induction xs) auto

lemma play_next_index:
  "playlist s \<noteq> [] \<Longrightarrow>
     current_index (play_next env s) = (current_index s + 1) mod int (length (playlist s))"
  by (simp add: play_next_def Let_def play_file_fields)

lemma play_previous_index:
  "playlist s \<noteq> [] \<Longrightarrow>
     current_index (play_previous env s) = (current_index s - 1) mod int (length (playlist s))"
  by (simp add: play_previous_def Let_def play_file_fields)

lemma play_next_playlist: "playlist (play_next env s) = playlist s"
  by (simp add: play_next_def Let_def play_file_fields)

lemma play_previous_playlist: "playlist (play_previous env s) = playlist s"
  by (simp add: play_previous_def Let_def play_file_fields)

lemma play_next_path:
  "playlist s \<noteq> [] \<Longrightarrow>
     current_file_path (play_next env s) =
       Some (playlist s ! nat ((current_index s + 1) mod int (length (playlist s))))"
  by (simp add: play_next_def Let_def play_file_fields)

lemma play_previous_path:
  "playlist s \<noteq> [] \<Longrightarrow>
     current_file_path (play_previous env s) =
       Some (playlist s ! nat ((current_index s - 1) mod int (length (playlist s))))"
  by (simp add: play_previous_def Let_def play_file_fields)

lemma play_next_funpow_playlist: "playlist ((play_next env ^^ k) s) = playlist s"
  by (induction k) (simp_all add: play_next_playlist)

lemma play_previous_funpow_playlist: "playlist ((play_previous env ^^ k) s) = playlist s"
  by (induction k) (simp_all add: play_previous_playlist)

lemma play_next_funpow_index:
  "playlist s \<noteq> [] \<Longrightarrow> 0 < k \<Longrightarrow>
     current_index ((play_next env ^^ k) s) = (current_index s + int k) mod int (length (playlist s))"
proof (induction k)
  case 0
  then show ?case by simp
next
  case (Suc k)
  show ?case
  proof (cases "k = 0")
    case True
    then show ?thesis using Suc.prems by (simp add: play_next_index)
  next
    case False
    then have "current_index ((play_next env ^^ k) s) = (current_index s + int k) mod int (length (playlist s))"
      using Suc by simp
    then show ?thesis
      using Suc.prems
      by (simp add: play_next_index play_next_funpow_playlist mod_add_left_eq mod_add_right_eq ac_simps)
  qed
qed

lemma play_previous_funpow_index:
  "playlist s \<noteq> [] \<Longrightarrow> 0 < k \<Longrightarrow>
     current_index ((play_previous env ^^ k) s) = (current_index s - int k) mod int (length (playlist s))"
proof (induction k)
  case 0
  then show ?case by simp
next
  case (Suc k)
  show ?case
  proof (cases "k = 0")
    case True
    then show ?thesis using Suc.prems by (simp add: play_previous_index)
  next
    case False
    then have "current_index ((play_previous env ^^ k) s) = (current_index s - int k) mod int (length (playlist s))"
      using Suc by simp
    then show ?thesis
      using Suc.prems
      by (simp add: play_previous_index play_previous_funpow_playlist mod_diff_left_eq algebra_simps)
  qed
qed

text \<open>
  C4, amended.  With a playlist of length \<open>N > 0\<close>, one call of \<^verbatim>\<open>play_next\<close> moves the
  cursor to \<open>(cursor + 1) mod N\<close> and one call of \<^verbatim>\<open>play_previous\<close> to
  \<open>(cursor - 1) mod N\<close>.  For a cursor \<open>c\<close> with \<open>0 \<le> c < N\<close>, \<open>N\<close> calls of
  \<^verbatim>\<open>play_next\<close> bring the cursor back to \<open>c\<close>, and so do \<open>N\<close> calls of
  \<^verbatim>\<open>play_previous\<close>.  After one or more calls of either, from any cursor, the cursor lies
  in \<open>0..N-1\<close>: from the cursor \<open>-1\<close> navigation never returns to \<open>-1\<close>.
\<close>

theorem navigation_wraps_around:
  assumes "playlist s \<noteq> []"
  shows "current_index (play_next env s) = (current_index s + 1) mod int (length (playlist s))
       \<and> current_index (play_previous env s) = (current_index s - 1) mod int (length (playlist s))
       \<and> (0 \<le> current_index s \<and> current_index s < int (length (playlist s)) \<longrightarrow>
            current_index ((play_next env ^^ length (playlist s)) s) = current_index s
            \<and> current_index ((play_previous env ^^ length (playlist s)) s) = current_index s)
       \<and> (\<forall>k. 0 < k \<longrightarrow>
            0 \<le> current_index ((play_next env ^^ k) s)
            \<and> current_index ((play_next env ^^ k) s) < int (length (playlist s))
            \<and> current_index ((play_next env ^^ k) s) \<noteq> - 1
            \<and> 0 \<le> current_index ((play_previous env ^^ k) s)
            \<and> current_index ((play_previous env ^^ k) s) < int (length (playlist s))
            \<and> current_index ((play_previous env ^^ k) s) \<noteq> - 1)"
proof -
  let ?n = "int (length (playlist s))"
  have n: "0 < length (playlist s)" and n': "0 < ?n" using assms by simp_all
  have step: "current_index (play_next env s) = (current_index s + 1) mod ?n"
    "current_index (play_previous env s) = (current_index s - 1) mod ?n"
    using assms by (simp_all add: play_next_index play_previous_index)
  have closure: "current_index ((play_next env ^^ length (playlist s)) s) = current_index s
            \<and> current_index ((play_previous env ^^ length (playlist s)) s) = current_index s"
    if "0 \<le> current_index s \<and> current_index s < ?n"
    using that assms n by (simp add: play_next_funpow_index play_previous_funpow_index)
  have range: "0 \<le> current_index ((play_next env ^^ k) s)
            \<and> current_index ((play_next env ^^ k) s) < ?n
            \<and> current_index ((play_next env ^^ k) s) \<noteq> - 1
            \<and> 0 \<le> current_index ((play_previous env ^^ k) s)
            \<and> current_index ((play_previous env ^^ k) s) < ?n
            \<and> current_index ((play_previous env ^^ k) s) \<noteq> - 1" if "0 < k" for k
  proof -
    have a: "current_index ((play_next env ^^ k) s) = (current_index s + int k) mod ?n"
      using assms that by (rule play_next_funpow_index)
    have b: "current_index ((play_previous env ^^ k) s) = (current_index s - int k) mod ?n"
      using assms that by (rule play_previous_funpow_index)
    have "0 \<le> (current_index s + int k) mod ?n" "(current_index s + int k) mod ?n < ?n"
      "0 \<le> (current_index s - int k) mod ?n" "(current_index s - int k) mod ?n < ?n"
      using n' by simp_all
    then show ?thesis unfolding a b by linarith
  qed
  show ?thesis using step closure range by blast
qed

lemma play_next_player:
  "playlist s \<noteq> [] \<Longrightarrow>
     source (player (play_next env s)) =
       Some (playlist s ! nat ((current_index s + 1) mod int (length (playlist s))))
     \<and> playbackState (player (play_next env s)) = PlayingState"
  by (simp add: play_next_def Let_def play_file_fields)

lemma restore_unselected:
  "restore_playlist env (new_player ld dev mem None geom d)
     = Inr (if mem = [] then new_player ld dev mem None geom d
            else (new_player ld dev mem None geom d)\<lparr> playlist := mem \<rparr>)"
  by (simp add: restore_playlist_def new_player_def Let_def)

text \<open>
  C4 as stated fails for the cursor \<open>-1\<close>: a player that has started with a remembered
  playlist of two tracks and no selection does not come back to \<open>-1\<close> after two
  \<^verbatim>\<open>play_next\<close>.
\<close>

theorem next_from_no_selection_never_returns:
  "reachable unselected_player
   \<and> playlist unselected_player \<noteq> []
   \<and> current_index ((play_next sample_env ^^ length (playlist unselected_player)) unselected_player)
       \<noteq> current_index unselected_player"
proof -
  have "restore_playlist sample_env (new_player ''/m'' [] [''/m/a.mp3'', ''/m/b.mp3''] None ''AAAA'' None)
          = Inr unselected_player"
    by (simp add: restore_unselected unselected_player_def)
  then have "reachable unselected_player" by (rule reachable.start)
  moreover have "playlist unselected_player \<noteq> []"
    by (simp add: unselected_player_def new_player_def)
  moreover have "current_index ((play_next sample_env ^^ length (playlist unselected_player)) unselected_player)
       \<noteq> current_index unselected_player"
  proof -
    have "current_index ((play_next sample_env ^^ length (playlist unselected_player)) unselected_player)
        = (current_index unselected_player + int (length (playlist unselected_player)))
            mod int (length (playlist unselected_player))"
      by (rule play_next_funpow_index) (simp_all add: unselected_player_def new_player_def)
    moreover have "(current_index unselected_player + int (length (playlist unselected_player)))
            mod int (length (playlist unselected_player)) = 1"
      by (simp add: unselected_player_def new_player_def)
    moreover have "current_index unselected_player = - 1"
      by (simp add: unselected_player_def new_player_def)
    ultimately show ?thesis by linarith
  qed
  ultimately show ?thesis by simp
qed

text \<open>
  The amended C4 on the player that plays the second of two tracks, and on the player
  without a selection for five calls.
\<close>

theorem navigation_wraps_around_witness:
  "playlist playing_player \<noteq> []
   \<and> 0 \<le> current_index playing_player
   \<and> current_index playing_player < int (length (playlist playing_player))
   \<and> current_index ((play_next sample_env ^^ length (playlist playing_player)) playing_player)
        = current_index playing_player
   \<and> current_index ((play_previous sample_env ^^ length (playlist playing_player)) playing_player)
        = current_index playing_player
   \<and> current_index (play_next sample_env playing_player) = 0
   \<and> current_index (play_previous sample_env playing_player) = 0
   \<and> playlist unselected_player \<noteq> []
   \<and> current_index unselected_player = - 1
   \<and> (0::nat) < 5
   \<and> current_index ((play_next sample_env ^^ 5) unselected_player) \<noteq> - 1
   \<and> current_index ((play_previous sample_env ^^ 5) unselected_player) \<noteq> - 1"
proof -
  have p: "playlist playing_player \<noteq> []" "0 \<le> current_index playing_player"
    "current_index playing_player < int (length (playlist playing_player))"
    "current_index playing_player = 1" "int (length (playlist playing_player)) = 2"
    by (simp_all add: playing_player_def new_player_def)
  have u: "playlist unselected_player \<noteq> []" "current_index unselected_player = - 1"
    by (simp_all add: unselected_player_def new_player_def)
  have five: "(0::nat) < 5" by simp
  note a = navigation_wraps_around [OF p(1), of sample_env]
  note b = navigation_wraps_around [OF u(1), of sample_env]
  have a1: "current_index (play_next sample_env playing_player) = 0"
    "current_index (play_previous sample_env playing_player) = 0"
    using a p(4,5) by simp_all
  have a2: "current_index ((play_next sample_env ^^ length (playlist playing_player)) playing_player)
        = current_index playing_player
   \<and> current_index ((play_previous sample_env ^^ length (playlist playing_player)) playing_player)
        = current_index playing_player"
    using a p(2,3) by blast
  have b1: "current_index ((play_next sample_env ^^ 5) unselected_player) \<noteq> - 1
     \<and> current_index ((play_previous sample_env ^^ 5) unselected_player) \<noteq> - 1"
    using b five by blast
  show ?thesis using p(1-3) u a1 a2 b1 five by blast
qed

text \<open>
  C10.  With a playlist of length \<open>N > 0\<close> and the cursor \<open>-1\<close>, \<^verbatim>\<open>play_next\<close> sets
  the cursor to \<open>0\<close> and plays the first track; \<^verbatim>\<open>play_previous\<close> sets it to
  \<open>(N - 2) mod N\<close>, the last track but one when \<open>N \<ge> 2\<close>.
\<close>

theorem navigation_from_no_selection:
  assumes "playlist s \<noteq> []" and "current_index s = - 1"
  shows "current_index (play_next env s) = 0
       \<and> current_file_path (play_next env s) = Some (playlist s ! 0)
       \<and> source (player (play_next env s)) = Some (playlist s ! 0)
       \<and> playbackState (player (play_next env s)) = PlayingState
       \<and> current_index (play_previous env s)
            = (int (length (playlist s)) - 2) mod int (length (playlist s))
       \<and> (2 \<le> length (playlist s) \<longrightarrow>
            current_index (play_previous env s) = int (length (playlist s)) - 2
            \<and> current_file_path (play_previous env s)
                 = Some (playlist s ! (length (playlist s) - 2)))"
proof -
  let ?n = "int (length (playlist s))"
  have n: "0 < ?n" using assms(1) by simp
  have m: "(- 2) mod ?n = (?n - 2) mod ?n"
    by (metis diff_0 mod_diff_left_eq mod_self)
  have nxt: "current_index (play_next env s) = 0"
    using assms by (simp add: play_next_index)
  have p1: "current_file_path (play_next env s) = Some (playlist s ! 0)"
    using assms by (simp add: play_next_path)
  have p2: "source (player (play_next env s)) = Some (playlist s ! 0)
          \<and> playbackState (player (play_next env s)) = PlayingState"
    using assms play_next_player [of s env] by simp
  have prv: "current_index (play_previous env s) = (?n - 2) mod ?n"
    using assms m by (simp add: play_previous_index)
  have big: "2 \<le> length (playlist s) \<longrightarrow>
            current_index (play_previous env s) = ?n - 2
            \<and> current_file_path (play_previous env s)
                 = Some (playlist s ! (length (playlist s) - 2))"
  proof
    assume two: "2 \<le> length (playlist s)"
    then have e: "(?n - 2) mod ?n = ?n - 2"
      by (intro mod_pos_pos_trivial) simp_all
    have "(current_index s - 1) mod ?n = (- 2) mod ?n"
      using assms(2) by simp
    also have "\<dots> = (?n - 2) mod ?n" by (rule m)
    also have "\<dots> = ?n - 2" by (rule e)
    finally have idx: "(current_index s - 1) mod ?n = ?n - 2" .
    have k: "nat (?n - 2) = length (playlist s) - 2" using two by simp
    have "current_file_path (play_previous env s)
            = Some (playlist s ! nat ((current_index s - 1) mod ?n))"
      using assms(1) by (rule play_previous_path)
    then have "current_file_path (play_previous env s)
                 = Some (playlist s ! (length (playlist s) - 2))"
      unfolding idx k .
    moreover have "current_index (play_previous env s) = ?n - 2"
      by (simp only: prv e)
    ultimately show "current_index (play_previous env s) = ?n - 2
            \<and> current_file_path (play_previous env s)
                 = Some (playlist s ! (length (playlist s) - 2))"
      by simp
  qed
  show ?thesis using nxt p1 p2 prv big by simp
qed

text \<open>C10 on the player with two remembered tracks and no selection.\<close>

theorem navigation_from_no_selection_witness:
  "playlist unselected_player \<noteq> []
   \<and> current_index unselected_player = - 1
   \<and> 2 \<le> length (playlist unselected_player)
   \<and> current_index (play_next sample_env unselected_player) = 0
   \<and> current_file_path (play_next sample_env unselected_player) = Some ''/m/a.mp3''
   \<and> current_index (play_previous sample_env unselected_player) = 0
   \<and> current_file_path (play_previous sample_env unselected_player) = Some ''/m/a.mp3''"
  using navigation_from_no_selection [of unselected_player sample_env]
  by (simp add: unselected_player_def new_player_def)

section \<open>Selecting a track and finding its image\<close>

lemma py_index_raises_only_ValueError: "py_index xs x = Inl e \<Longrightarrow> e = ValueError"
  by (auto simp: py_index_def split: if_splits)

text \<open>
  C7 as stated fails: a path that is not in the playlist makes the handler return
  normally, with the player unchanged; no error reaches the caller.
\<close>

theorem double_click_on_absent_path_returns:
  "''/m/c.mp3'' \<notin> set (playlist playing_player)
   \<and> playlist_file_double_clicked sample_env ''/m/c.mp3'' playing_player = Inr playing_player"
  by (simp add: playlist_file_double_clicked_def py_index_def playing_player_def new_player_def)

text \<open>
  C7, amended.  When the path is in the playlist, the handler sets the cursor to the
  index of its first occurrence and plays that entry; it returns nothing else.  When the
  path is absent, the handler is a silent no-op: the player is unchanged and no error is
  raised.
\<close>

theorem double_click_selects_or_ignores:
  "(file_path \<in> set (playlist s) \<longrightarrow>
      (\<exists>s'. playlist_file_double_clicked env file_path s = Inr s'
          \<and> current_index s' = int (first_index (playlist s) file_path)
          \<and> playlist s' = playlist s
          \<and> playlist s' ! first_index (playlist s) file_path = file_path
          \<and> current_file_path s' = Some file_path
          \<and> source (player s') = Some file_path
          \<and> playbackState (player s') = PlayingState))
   \<and> (file_path \<notin> set (playlist s) \<longrightarrow>
          playlist_file_double_clicked env file_path s = Inr s)"
proof (cases "file_path \<in> set (playlist s)")
  case True
  then have "first_index (playlist s) file_path < length (playlist s)"
    and "playlist s ! first_index (playlist s) file_path = file_path"
    by (simp_all add: first_index_less first_index_nth)
  with True show ?thesis
    by (simp add: playlist_file_double_clicked_def py_index_def play_file_fields)
next
  case False
  then show ?thesis
    by (simp add: playlist_file_double_clicked_def py_index_def)
qed

text \<open>The amended C7 on a path that is in the playlist and on one that is not.\<close>

theorem double_click_selects_or_ignores_witness:
  "''/m/a.mp3'' \<in> set (playlist playing_player)
   \<and> (\<exists>s'. playlist_file_double_clicked sample_env ''/m/a.mp3'' playing_player = Inr s'
          \<and> current_index s' = 0
          \<and> current_file_path s' = Some ''/m/a.mp3'')
   \<and> ''/m/c.mp3'' \<notin> set (playlist playing_player)
   \<and> playlist_file_double_clicked sample_env ''/m/c.mp3'' playing_player = Inr playing_player"
proof -
  have a: "''/m/a.mp3'' \<in> set (playlist playing_player)"
    and c: "''/m/c.mp3'' \<notin> set (playlist playing_player)"
    and i: "first_index (playlist playing_player) ''/m/a.mp3'' = 0"
    by (simp_all add: playing_player_def new_player_def first_index_def)
  show ?thesis
    using double_click_selects_or_ignores [of "''/m/a.mp3''" playing_player sample_env]
      double_click_selects_or_ignores [of "''/m/c.mp3''" playing_player sample_env] a c i
    by auto
qed

lemma first_existing_None:
  "first_existing ex base_path exts = None \<longleftrightarrow> (\<forall>ext \<in> set exts. \<not> ex (base_path @ ext))"
  by (induction exts) auto

lemma first_existing_Some:
  "first_existing ex base_path exts = Some q \<Longrightarrow>
     \<exists>i < length exts. q = base_path @ exts ! i \<and> ex q
        \<and> (\<forall>j < i. \<not> ex (base_path @ exts ! j))"
proof (induction exts)
  case Nil
  then show ?case by simp
next
  case (Cons ext exts)
  show ?case
  proof (cases "ex (base_path @ ext)")
    case True
    with Cons.prems have "q = base_path @ ext" by simp
    with True have "q = base_path @ (ext # exts) ! 0 \<and> ex q
        \<and> (\<forall>j < 0. \<not> ex (base_path @ (ext # exts) ! j))" by simp
    then show ?thesis by blast
  next
    case False
    with Cons.prems have "first_existing ex base_path exts = Some q" by simp
    then obtain i where i: "i < length exts" "q = base_path @ exts ! i" "ex q"
      "\<forall>j < i. \<not> ex (base_path @ exts ! j)"
      using Cons.IH by blast
    have "\<forall>j < Suc i. \<not> ex (base_path @ (ext # exts) ! j)"
      using False i(4) by (auto simp: less_Suc_eq_0_disj)
    with i(1-3) have "Suc i < length (ext # exts) \<and> q = base_path @ (ext # exts) ! Suc i \<and> ex q
        \<and> (\<forall>j < Suc i. \<not> ex (base_path @ (ext # exts) ! j))" by simp
    then show ?thesis by blast
  qed
qed

lemma play_file_image:
  "current_image_path (play_file env p s) = current_image_path (load_image env p s)"
  by (simp add: play_file_def Let_def save_self_def load_image_def)

text \<open>
  C9.  The image that \<^verbatim>\<open>load_image\<close> resolves for an audio path, and so the one of
  every \<^verbatim>\<open>play_file\<close>, is the audio path without its extension followed by the first
  of \<^verbatim>\<open>.jpg\<close>, \<^verbatim>\<open>.jpeg\<close>, \<^verbatim>\<open>.png\<close>, \<^verbatim>\<open>.bmp\<close>, \<^verbatim>\<open>.gif\<close> for which
  \<^verbatim>\<open>os.path.exists\<close> holds; it is \<^verbatim>\<open>None\<close> exactly when it holds for none of them.
\<close>

theorem load_image_first_existing:
  "IMAGE_EXTENSIONS = [''.jpg'', ''.jpeg'', ''.png'', ''.bmp'', ''.gif'']
   \<and> current_image_path (play_file env audio_path s)
       = current_image_path (load_image env audio_path s)
   \<and> (current_image_path (load_image env audio_path s) = None \<longleftrightarrow>
        (\<forall>ext \<in> set IMAGE_EXTENSIONS. \<not> path_exists env (fst (splitext audio_path) @ ext)))
   \<and> (\<forall>q. current_image_path (load_image env audio_path s) = Some q \<longrightarrow>
        (\<exists>i < length IMAGE_EXTENSIONS.
            q = fst (splitext audio_path) @ IMAGE_EXTENSIONS ! i
            \<and> path_exists env q
            \<and> (\<forall>j < i. \<not> path_exists env (fst (splitext audio_path) @ IMAGE_EXTENSIONS ! j))))"
proof -
  have "\<forall>q. current_image_path (load_image env audio_path s) = Some q \<longrightarrow>
        (\<exists>i < length IMAGE_EXTENSIONS.
            q = fst (splitext audio_path) @ IMAGE_EXTENSIONS ! i
            \<and> path_exists env q
            \<and> (\<forall>j < i. \<not> path_exists env (fst (splitext audio_path) @ IMAGE_EXTENSIONS ! j)))"
    using first_existing_Some [of "path_exists env" "fst (splitext audio_path)" IMAGE_EXTENSIONS]
    by (simp add: load_image_def)
  moreover have "current_image_path (load_image env audio_path s) = None \<longleftrightarrow>
        (\<forall>ext \<in> set IMAGE_EXTENSIONS. \<not> path_exists env (fst (splitext audio_path) @ ext))"
    by (simp add: load_image_def first_existing_None)
  ultimately show ?thesis
    by (simp add: play_file_image IMAGE_EXTENSIONS_def)
qed

lemma splitext_sample: "splitext ''/m/b.mp3'' = (''/m/b'', ''.mp3'')"
  by code_simp

lemma splitext_sample_a: "splitext ''/m/a.mp3'' = (''/m/a'', ''.mp3'')"
  by code_simp


text \<open>
  C9 in the sample directory: \<^verbatim>\<open>b.png\<close> is found for \<^verbatim>\<open>b.mp3\<close>, before \<^verbatim>\<open>b.gif\<close> and
  after \<^verbatim>\<open>b.jpg\<close> and \<^verbatim>\<open>b.jpeg\<close>, which do not exist; nothing is found for
  \<^verbatim>\<open>a.mp3\<close>.
\<close>

theorem load_image_first_existing_witness:
  "current_image_path (load_image sample_env ''/m/b.mp3'' fresh_player) = Some ''/m/b.png''
   \<and> path_exists sample_env ''/m/b.png''
   \<and> path_exists sample_env ''/m/b.gif''
   \<and> \<not> path_exists sample_env ''/m/b.jpg''
   \<and> \<not> path_exists sample_env ''/m/b.jpeg''
   \<and> current_image_path (load_image sample_env ''/m/a.mp3'' fresh_player) = None"
proof -
  have b: "current_image_path (load_image sample_env ''/m/b.mp3'' fresh_player) = Some ''/m/b.png''"
    by (simp add: load_image_def splitext_sample IMAGE_EXTENSIONS_def sample_env_def hanzi_a_def)
  have a: "current_image_path (load_image sample_env ''/m/a.mp3'' fresh_player) = None"
    by (simp add: load_image_def splitext_sample_a IMAGE_EXTENSIONS_def sample_env_def hanzi_a_def)
  have e: "path_exists sample_env ''/m/b.png''" "path_exists sample_env ''/m/b.gif''"
    "\<not> path_exists sample_env ''/m/b.jpg''" "\<not> path_exists sample_env ''/m/b.jpeg''"
    by (simp_all add: sample_env_def hanzi_a_def)
  show ?thesis
    using load_image_first_existing [of sample_env "''/m/b.mp3''" fresh_player]
      load_image_first_existing [of sample_env "''/m/a.mp3''" fresh_player] a b e
    by simp
qed

section \<open>The order of a scanned directory\<close>

lemma insort_key_spec_order:
  assumes "sorted_wrt (spec_scan_order env) ys"
    and "\<forall>y \<in> set ys. basename x \<le> basename y"
  shows "sorted_wrt (spec_scan_order env) (insort_key (pinyin_key env) x ys)"
  using assms
proof (induction ys)
  case Nil
  then show ?case by simp
next
  case (Cons y ys)
  show ?case
  proof (cases "pinyin_key env x \<le> pinyin_key env y")
    case True
    have "spec_scan_order env x z" if "z \<in> set (y # ys)" for z
    proof -
      have "pinyin_key env y \<le> pinyin_key env z"
        using that Cons.prems(1) by (auto simp: spec_scan_order_def)
      with True have "pinyin_key env x \<le> pinyin_key env z" by simp
      moreover have "basename x \<le> basename z" using that Cons.prems(2) by auto
      ultimately show ?thesis by (auto simp: spec_scan_order_def)
    qed
    with True Cons.prems(1) show ?thesis by simp
  next
    case False
    then have less: "pinyin_key env y < pinyin_key env x" by simp
    have tail: "sorted_wrt (spec_scan_order env) (insort_key (pinyin_key env) x ys)"
      using Cons by simp
    have "spec_scan_order env y z" if "z \<in> set (insort_key (pinyin_key env) x ys)" for z
      using that less Cons.prems(1) by (auto simp: set_insort_key spec_scan_order_def)
    with False tail show ?thesis by simp
  qed
qed

lemma sort_key_spec_order:
  "sorted (map basename xs) \<Longrightarrow> sorted_wrt (spec_scan_order env) (sort_key (pinyin_key env) xs)"
proof (induction xs)
  case Nil
  then show ?case by simp
next
  case (Cons x xs)
  then have "sorted_wrt (spec_scan_order env) (sort_key (pinyin_key env) xs)"
    and "\<forall>y \<in> set (sort_key (pinyin_key env) xs). basename x \<le> basename y"
    by simp_all
  then show ?case
    by (simp add: insort_key_spec_order)
qed

lemma load_directory_playlist:
  "playlist (load_directory_to_playlist env d s)
     = sort_key (pinyin_key env) (map (replace_sep env) (entry_files env d))"
  "playlist_memory (load_directory_to_playlist env d s)
     = sort_key (pinyin_key env) (map (replace_sep env) (entry_files env d))"
  "current_file_path (load_directory_to_playlist env d s) = current_file_path s"
  "current_index (load_directory_to_playlist env d s) = current_index s"
  "player (load_directory_to_playlist env d s) = player s"
  by (simp_all add: load_directory_to_playlist_def Let_def)

lemma sample_keys:
  "pinyin_key sample_env ''/m/a.mp3'' = ''a.mp3''"
  "pinyin_key sample_env ''/m/b.mp3'' = ''b.mp3''"
  "pinyin_key sample_env (''/m/'' @ hanzi_a @ ''.mp3'') = ''a.mp3''"
  "basename ''/m/a.mp3'' = ''a.mp3''"
  "basename ''/m/b.mp3'' = ''b.mp3''"
  "basename (''/m/'' @ hanzi_a @ ''.mp3'') = hanzi_a @ ''.mp3''"
  by code_simp+

lemma qdir_keys:
  "pinyin_key qdir_env (''/z/'' @ han_zai @ ''.mp3'') = ''zai.mp3''"
  "pinyin_key qdir_env (''/z/'' @ pua_zai @ ''.mp3'') = ''zai.mp3''"
  by code_simp+

lemma qdir_scan:
  "playlist (load_directory_to_playlist qdir_env ''/z'' fresh_player)
     = [''/z/'' @ han_zai @ ''.mp3'', ''/z/'' @ pua_zai @ ''.mp3'']"
  by code_simp

lemma sample_scan:
  "playlist (load_directory_to_playlist sample_env ''/m'' fresh_player)
     = [''/m/a.mp3'', ''/m/'' @ hanzi_a @ ''.mp3'', ''/m/b.mp3'']"
  by code_simp

lemma qdir_basenames:
  "basename (''/z/'' @ han_zai @ ''.mp3'') = han_zai @ ''.mp3''"
  "basename (''/z/'' @ pua_zai @ ''.mp3'') = pua_zai @ ''.mp3''"
  "basename ''/m/a.mp3'' = ''a.mp3''"
  "basename ''/m/b.mp3'' = ''b.mp3''"
  "basename (''/m/'' @ hanzi_a @ ''.mp3'') = hanzi_a @ ''.mp3''"
  by code_simp+

lemma sample_decoded:
  "utf8_decode (han_zai @ ''.mp3'') = [0x2298F, 0x2E, 0x6D, 0x70, 0x33]"
  "utf8_decode (pua_zai @ ''.mp3'') = [0xE83B, 0x2E, 0x6D, 0x70, 0x33]"
  "utf8_decode (hanzi_a @ ''.mp3'') = [0x554A, 0x2E, 0x6D, 0x70, 0x33]"
  "utf8_decode ''a.mp3'' = [0x61, 0x2E, 0x6D, 0x70, 0x33]"
  "utf8_decode ''b.mp3'' = [0x62, 0x2E, 0x6D, 0x70, 0x33]"
  by (simp_all add: han_zai_def pua_zai_def hanzi_a_def)

lemma qdir_name_keys:
  "qdir_name_key (''/z/'' @ han_zai @ ''.mp3'') = [0xD84A, 0xDD8F, 0x2E, 0x6D, 0x70, 0x33]"
  "qdir_name_key (''/z/'' @ pua_zai @ ''.mp3'') = [0xE83B, 0x2E, 0x6D, 0x70, 0x33]"
  "qdir_name_key ''/m/a.mp3'' = [0x61, 0x2E, 0x6D, 0x70, 0x33]"
  "qdir_name_key ''/m/b.mp3'' = [0x62, 0x2E, 0x6D, 0x70, 0x33]"
  "qdir_name_key (''/m/'' @ hanzi_a @ ''.mp3'') = [0x554A, 0x2E, 0x6D, 0x70, 0x33]"
  unfolding qdir_name_key_def qdir_basenames sample_decoded
  by (simp_all add: utf16_def qt_lower_def)

lemma qdir_listing_in_order: "qdir_order (entry_files qdir_env ''/z'')"
proof -
  have "entry_files qdir_env ''/z'' = [''/z/'' @ han_zai @ ''.mp3'', ''/z/'' @ pua_zai @ ''.mp3'']"
    by (simp add: qdir_env_def)
  then show ?thesis
    unfolding qdir_order_def by (simp only: list.map qdir_name_keys) simp
qed

lemma sample_listing_in_order: "qdir_order (entry_files sample_env ''/m'')"
proof -
  have "entry_files sample_env ''/m'' = [''/m/a.mp3'', ''/m/b.mp3'', ''/m/'' @ hanzi_a @ ''.mp3'']"
    by (simp add: sample_env_def)
  then show ?thesis
    unfolding qdir_order_def by (simp only: list.map qdir_name_keys) simp
qed

lemma name_order: "basename (''/z/'' @ pua_zai @ ''.mp3'') < basename (''/z/'' @ han_zai @ ''.mp3'')"
  by code_simp

text \<open>
  C3 as stated fails.  In the directory \<^verbatim>\<open>/z\<close> the file named U+2298F is listed by
  \<^verbatim>\<open>QDir\<close> before the one named U+E83B (its first UTF-16 code unit D84A is below E83B).
  The two have the same key and stay in that order, although the name U+E83B is the
  smaller one when Python compares the file names, by code points.
\<close>

theorem scan_does_not_compare_file_names:
  "qdir_order (entry_files qdir_env ''/z'')
   \<and> entry_files qdir_env ''/z'' = [''/z/'' @ han_zai @ ''.mp3'', ''/z/'' @ pua_zai @ ''.mp3'']
   \<and> playlist (load_directory_to_playlist qdir_env ''/z'' fresh_player)
        = [''/z/'' @ han_zai @ ''.mp3'', ''/z/'' @ pua_zai @ ''.mp3'']
   \<and> pinyin_key qdir_env (''/z/'' @ han_zai @ ''.mp3'') = pinyin_key qdir_env (''/z/'' @ pua_zai @ ''.mp3'')
   \<and> basename (''/z/'' @ pua_zai @ ''.mp3'') < basename (''/z/'' @ han_zai @ ''.mp3'')
   \<and> \<not> sorted_wrt (spec_scan_order qdir_env)
         (playlist (load_directory_to_playlist qdir_env ''/z'' fresh_player))"
proof -
  have l: "entry_files qdir_env ''/z'' = [''/z/'' @ han_zai @ ''.mp3'', ''/z/'' @ pua_zai @ ''.mp3'']"
    by (simp add: qdir_env_def)
  have "\<not> spec_scan_order qdir_env (''/z/'' @ han_zai @ ''.mp3'') (''/z/'' @ pua_zai @ ''.mp3'')"
    unfolding spec_scan_order_def qdir_keys using name_order by auto
  then have "\<not> sorted_wrt (spec_scan_order qdir_env)
         [''/z/'' @ han_zai @ ''.mp3'', ''/z/'' @ pua_zai @ ''.mp3'']"
    by simp
  then show ?thesis
    unfolding qdir_scan qdir_keys using name_order qdir_listing_in_order l by blast
qed

text \<open>
  C3, amended.  A scan orders the listing by the transliterated key alone, with a stable
  sort: the keys of the result ascend, and the entries that share a key are the ones of
  the listing in the order of the listing.  Ties are therefore in the order of the
  original file names whenever the directory listing is; the scan itself never compares
  file names.
\<close>

theorem scan_sorts_by_key_stably:
  "sorted (map (pinyin_key env) (playlist (load_directory_to_playlist env d s)))
   \<and> (\<forall>k. filter (\<lambda>p. pinyin_key env p = k) (playlist (load_directory_to_playlist env d s))
          = filter (\<lambda>p. pinyin_key env p = k) (map (replace_sep env) (entry_files env d)))
   \<and> (sorted (map basename (map (replace_sep env) (entry_files env d))) \<longrightarrow>
        sorted_wrt (spec_scan_order env) (playlist (load_directory_to_playlist env d s)))"
  by (simp add: load_directory_playlist sort_key_stable sort_key_spec_order del: map_map)

text \<open>
  The amended C3 on the sample directory, whose listing is in the order of \<^verbatim>\<open>QDir\<close>
  and in the order of the file names: the file named U+554A follows \<^verbatim>\<open>a.mp3\<close>, with
  which it shares the key.
\<close>

theorem scan_sorts_by_key_stably_witness:
  "qdir_order (entry_files sample_env ''/m'')
   \<and> sorted (map basename (map (replace_sep sample_env) (entry_files sample_env ''/m'')))
   \<and> playlist (load_directory_to_playlist sample_env ''/m'' fresh_player)
        = [''/m/a.mp3'', ''/m/'' @ hanzi_a @ ''.mp3'', ''/m/b.mp3'']
   \<and> sorted_wrt (spec_scan_order sample_env)
        (playlist (load_directory_to_playlist sample_env ''/m'' fresh_player))"
proof -
  have "sorted (map basename (map (replace_sep sample_env) (entry_files sample_env ''/m'')))"
    by code_simp
  then show ?thesis
    using scan_sorts_by_key_stably [of sample_env "''/m''" fresh_player] sample_listing_in_order
    by (simp add: sample_scan del: map_map)
qed

section \<open>Reloading the playlist\<close>

lemma stop_fields:
  "playlist (stop s) = playlist s"
  "current_index (stop s) = current_index s"
  "current_file_path (stop s) = current_file_path s"
  "playbackState (player (stop s)) = StoppedState"
  by (simp_all add: stop_def player_stop_def)

lemma reload_dir_selected:
  "current_file_path s = Some P \<Longrightarrow> P \<noteq> [] \<Longrightarrow> reload_dir s = Some (dirname P)"
  by (simp add: reload_dir_def)

lemma reload_present:
  assumes "current_file_path s = Some P" and "P \<noteq> []"
    and "dirname P \<noteq> []" and "isdir env (dirname P)"
    and "P \<in> set (playlist (load_directory_to_playlist env (dirname P) s))"
  shows "reload_current_directory_playlist env s =
     save_self
       (let s1 = load_directory_to_playlist env (dirname P) s;
            s2 = s1\<lparr> current_index := int (first_index (playlist s1) P) \<rparr>;
            s3 = s2\<lparr> player := player_setPosition
                     (if playbackState (player s) = PlayingState then position (player s) else 0)
                     (player_setSource P (player s2)) \<rparr>
        in if playbackState (player s) = PlayingState
           then s3\<lparr> player := player_play (player s3) \<rparr> else s3)"
  using assms
  by (simp add: reload_current_directory_playlist_def reload_dir_selected Let_def
        in_playlist_def load_directory_playlist)

lemma reload_absent:
  assumes "current_file_path s = Some P" and "P \<noteq> []"
    and "dirname P \<noteq> []" and "isdir env (dirname P)"
    and "P \<notin> set (playlist (load_directory_to_playlist env (dirname P) s))"
  shows "reload_current_directory_playlist env s =
     save_self ((stop (load_directory_to_playlist env (dirname P) s))
                  \<lparr> current_index := - 1, current_file_path := None \<rparr>)"
  using assms
  by (simp add: reload_current_directory_playlist_def reload_dir_selected Let_def
        in_playlist_def load_directory_playlist)

text \<open>
  C5.  Let \<open>P\<close> be the current file path and let the reload take place (the directory
  of \<open>P\<close> exists).  When \<open>P\<close> is in the freshly scanned list, the cursor points at \<open>P\<close>
  in the new playlist and the player has \<open>P\<close> as its source; when \<open>P\<close> was playing, the
  player plays on at the offset it had.  When \<open>P\<close> is not in the new list, playback is
  stopped, the cursor is \<open>-1\<close> and the current file path is cleared.
\<close>

theorem reload_keeps_or_drops_selection:
  assumes "current_file_path s = Some P" and "P \<noteq> []"
    and "dirname P \<noteq> []" and "isdir env (dirname P)"
  shows "playlist (reload_current_directory_playlist env s)
           = playlist (load_directory_to_playlist env (dirname P) s)
       \<and> (P \<in> set (playlist (load_directory_to_playlist env (dirname P) s)) \<longrightarrow>
            0 \<le> current_index (reload_current_directory_playlist env s)
            \<and> current_index (reload_current_directory_playlist env s)
                 < int (length (playlist (reload_current_directory_playlist env s)))
            \<and> playlist (reload_current_directory_playlist env s)
                 ! nat (current_index (reload_current_directory_playlist env s)) = P
            \<and> current_file_path (reload_current_directory_playlist env s) = Some P
            \<and> source (player (reload_current_directory_playlist env s)) = Some P
            \<and> (playbackState (player s) = PlayingState \<longrightarrow>
                  position (player (reload_current_directory_playlist env s)) = position (player s)
                  \<and> playbackState (player (reload_current_directory_playlist env s)) = PlayingState))
       \<and> (P \<notin> set (playlist (load_directory_to_playlist env (dirname P) s)) \<longrightarrow>
            playbackState (player (reload_current_directory_playlist env s)) = StoppedState
            \<and> current_index (reload_current_directory_playlist env s) = - 1
            \<and> current_file_path (reload_current_directory_playlist env s) = None)"
proof (cases "P \<in> set (playlist (load_directory_to_playlist env (dirname P) s))")
  case True
  note r = reload_present [OF assms True]
  have i: "first_index (playlist (load_directory_to_playlist env (dirname P) s)) P
             < length (playlist (load_directory_to_playlist env (dirname P) s))"
    and n: "playlist (load_directory_to_playlist env (dirname P) s)
             ! first_index (playlist (load_directory_to_playlist env (dirname P) s)) P = P"
    using True by (simp_all add: first_index_less first_index_nth)
  show ?thesis
    using True i n assms(1)
    by (simp add: r Let_def save_self_fields load_directory_playlist player_setPosition_def
          player_setSource_def player_stop_def player_play_def)
next
  case False
  note r = reload_absent [OF assms False]
  show ?thesis
    using False by (simp add: r save_self_fields stop_fields)
qed


lemma sample_dirnames:
  "dirname ''/m/b.mp3'' = ''/m''"
  "dirname ''/m/c.mp3'' = ''/m''"
  by code_simp+

lemma sample_listing_sorted:
  "sort_key (pinyin_key sample_env) (map (replace_sep sample_env) (entry_files sample_env ''/m''))
     = [''/m/a.mp3'', ''/m/'' @ hanzi_a @ ''.mp3'', ''/m/b.mp3'']"
  by code_simp

text \<open>
  C5 in the sample directory: the player that plays \<^verbatim>\<open>/m/b.mp3\<close> at offset 5000 keeps
  track and offset over a reload; a player whose current file \<^verbatim>\<open>/m/c.mp3\<close> has left
  the directory is stopped and loses its selection.
\<close>

theorem reload_keeps_or_drops_selection_witness:
  "current_file_path playing_player = Some ''/m/b.mp3''
   \<and> isdir sample_env (dirname ''/m/b.mp3'')
   \<and> playbackState (player playing_player) = PlayingState
   \<and> position (player playing_player) = 5000
   \<and> ''/m/b.mp3'' \<in> set (playlist (load_directory_to_playlist sample_env (dirname ''/m/b.mp3'') playing_player))
   \<and> playlist (reload_current_directory_playlist sample_env playing_player)
        ! nat (current_index (reload_current_directory_playlist sample_env playing_player)) = ''/m/b.mp3''
   \<and> position (player (reload_current_directory_playlist sample_env playing_player)) = 5000
   \<and> playbackState (player (reload_current_directory_playlist sample_env playing_player)) = PlayingState
   \<and> ''/m/c.mp3'' \<notin> set (playlist (load_directory_to_playlist sample_env (dirname ''/m/c.mp3'')
                                 (playing_player\<lparr> current_file_path := Some ''/m/c.mp3'' \<rparr>)))
   \<and> playbackState (player (reload_current_directory_playlist sample_env
                               (playing_player\<lparr> current_file_path := Some ''/m/c.mp3'' \<rparr>))) = StoppedState
   \<and> current_index (reload_current_directory_playlist sample_env
                       (playing_player\<lparr> current_file_path := Some ''/m/c.mp3'' \<rparr>)) = - 1
   \<and> current_file_path (reload_current_directory_playlist sample_env
                           (playing_player\<lparr> current_file_path := Some ''/m/c.mp3'' \<rparr>)) = None"
proof -
  have p: "current_file_path playing_player = Some ''/m/b.mp3''"
    "playbackState (player playing_player) = PlayingState"
    "position (player playing_player) = 5000"
    by (simp_all add: playing_player_def new_player_def)
  have d: "isdir sample_env ''/m''"
    by (simp add: sample_env_def)
  have b: "''/m/b.mp3'' \<in> set (playlist (load_directory_to_playlist sample_env ''/m'' playing_player))"
    by (simp add: load_directory_playlist sample_listing_sorted)
  have c: "''/m/c.mp3'' \<notin> set (playlist (load_directory_to_playlist sample_env ''/m''
                                 (playing_player\<lparr> current_file_path := Some ''/m/c.mp3'' \<rparr>)))"
    by (simp add: load_directory_playlist sample_listing_sorted hanzi_a_def)
  show ?thesis
    using reload_keeps_or_drops_selection [of playing_player "''/m/b.mp3''" sample_env]
      reload_keeps_or_drops_selection
        [of "playing_player\<lparr> current_file_path := Some ''/m/c.mp3'' \<rparr>" "''/m/c.mp3''" sample_env]
      p d b c
    by (auto simp: sample_dirnames)
qed

section \<open>The invariant of the cursor\<close>

lemma cursor_inv_fields:
  "playlist s' = playlist s \<Longrightarrow> current_index s' = current_index s \<Longrightarrow>
     current_file_path s' = current_file_path s \<Longrightarrow> cursor_inv s' = cursor_inv s"
  by (simp add: cursor_inv_def in_playlist_def split: option.splits)

lemma cursor_inv_selected:
  "0 \<le> current_index s \<Longrightarrow> current_index s < int (length (playlist s)) \<Longrightarrow>
     current_file_path s = Some (playlist s ! nat (current_index s)) \<Longrightarrow> cursor_inv s"
  by (auto simp: cursor_inv_def in_playlist_def)

lemma cursor_inv_unselected:
  "current_index s = - 1 \<Longrightarrow> playlist s = [] \<or> \<not> in_playlist s \<Longrightarrow> cursor_inv s"
  by (simp add: cursor_inv_def)

lemma cursor_inv_save_self: "cursor_inv (save_self s) = cursor_inv s"
  by (rule cursor_inv_fields) (simp_all add: save_self_fields)

lemma cursor_inv_play_at:
  assumes "i < length (playlist s)"
  shows "cursor_inv (play_file env (playlist s ! i) (s\<lparr> current_index := int i \<rparr>))"
  using assms by (intro cursor_inv_selected) (simp_all add: play_file_fields)

lemma cursor_inv_play_next: "cursor_inv s \<Longrightarrow> cursor_inv (play_next env s)"
proof (cases "playlist s = []")
  case True
  then show "cursor_inv s \<Longrightarrow> cursor_inv (play_next env s)" by (simp add: play_next_def)
next
  case False
  then have "0 < int (length (playlist s))" by simp
  then have "0 \<le> (current_index s + 1) mod int (length (playlist s))"
    and "(current_index s + 1) mod int (length (playlist s)) < int (length (playlist s))"
    by simp_all
  then show "cursor_inv (play_next env s)"
    using False
    by (intro cursor_inv_selected)
      (simp_all add: play_next_index play_next_playlist play_next_path)
qed

lemma cursor_inv_play_previous: "cursor_inv s \<Longrightarrow> cursor_inv (play_previous env s)"
proof (cases "playlist s = []")
  case True
  then show "cursor_inv s \<Longrightarrow> cursor_inv (play_previous env s)" by (simp add: play_previous_def)
next
  case False
  then have "0 < int (length (playlist s))" by simp
  then have "0 \<le> (current_index s - 1) mod int (length (playlist s))"
    and "(current_index s - 1) mod int (length (playlist s)) < int (length (playlist s))"
    by simp_all
  then show "cursor_inv (play_previous env s)"
    using False
    by (intro cursor_inv_selected)
      (simp_all add: play_previous_index play_previous_playlist play_previous_path)
qed

lemma cursor_inv_double_click:
  assumes "cursor_inv s" and "playlist_file_double_clicked env p s = Inr s'"
  shows "cursor_inv s'"
proof (cases "p \<in> set (playlist s)")
  case True
  then have i: "first_index (playlist s) p < length (playlist s)"
    by (rule first_index_less)
  then have "s' = play_file env (playlist s ! first_index (playlist s) p)
                    (s\<lparr> current_index := int (first_index (playlist s) p) \<rparr>)"
    using assms(2) True by (simp add: playlist_file_double_clicked_def py_index_def)
  then show ?thesis using i by (simp add: cursor_inv_play_at)
next
  case False
  then have "s' = s"
    using assms(2) by (simp add: playlist_file_double_clicked_def py_index_def)
  then show ?thesis using assms(1) by simp
qed

lemma cursor_inv_open_file: "cursor_inv s \<Longrightarrow> cursor_inv (open_file env p s)"
proof (cases "p = []")
  case True
  then show "cursor_inv s \<Longrightarrow> cursor_inv (open_file env p s)" by (simp add: open_file_def)
next
  case False
  let ?n = "replace_sep env (abspath env p)"
  let ?s3 = "play_file env ?n
               (load_directory_to_playlist env (dirname ?n) (s\<lparr> last_dir := dirname p \<rparr>))"
  have o: "open_file env p s =
             save_self (case py_index (playlist ?s3) ?n of
                          Inr i \<Rightarrow> ?s3\<lparr> current_index := int i \<rparr>
                        | Inl e \<Rightarrow> ?s3\<lparr> current_index := - 1 \<rparr>)"
    using False by (simp add: open_file_def Let_def)
  show "cursor_inv (open_file env p s)"
  proof (cases "?n \<in> set (playlist ?s3)")
    case True
    then have "first_index (playlist ?s3) ?n < length (playlist ?s3)"
      and "playlist ?s3 ! first_index (playlist ?s3) ?n = ?n"
      by (simp_all add: first_index_less first_index_nth)
    then have "cursor_inv (?s3\<lparr> current_index := int (first_index (playlist ?s3) ?n) \<rparr>)"
      by (intro cursor_inv_selected) (simp_all add: play_file_fields)
    then show ?thesis
      using True by (simp add: o py_index_def cursor_inv_save_self)
  next
    case False
    then have "cursor_inv (?s3\<lparr> current_index := - 1 \<rparr>)"
      by (intro cursor_inv_unselected) (simp_all add: in_playlist_def play_file_fields)
    then show ?thesis
      using False by (simp add: o py_index_def cursor_inv_save_self)
  qed
qed

section \<open>The invariant in every reachable state\<close>

lemma cursor_inv_reload:
  assumes "cursor_inv s"
  shows "cursor_inv (reload_current_directory_playlist env s)"
proof -
  let ?reset = "\<lambda>s1. (stop s1)\<lparr> current_index := - 1, current_file_path := None \<rparr>"
  have reset: "cursor_inv (?reset s1)" for s1
    by (intro cursor_inv_unselected) (simp_all add: in_playlist_def)
  have keep: "cursor_inv s3"
    if "in_playlist s1" and "current_file_path s1 = Some p"
      and "playlist s3 = playlist s1" and "current_file_path s3 = current_file_path s1"
      and "current_index s3 = int (first_index (playlist s1) p)"
    for s1 s3 :: audio_player and p
  proof -
    have "p \<in> set (playlist s1)" using that(1,2) by (simp add: in_playlist_def)
    then have "first_index (playlist s1) p < length (playlist s1)"
      and "playlist s1 ! first_index (playlist s1) p = p"
      by (simp_all add: first_index_less first_index_nth)
    then show ?thesis using that by (intro cursor_inv_selected) simp_all
  qed
  show ?thesis
  proof (cases "reload_dir s")
    case None
    then show ?thesis
      using assms by (simp add: reload_current_directory_playlist_def cursor_inv_save_self)
  next
    case (Some d)
    show ?thesis
    proof (cases "d \<noteq> [] \<and> isdir env d")
      case False
      then show ?thesis
        using assms Some
        by (auto simp: reload_current_directory_playlist_def cursor_inv_save_self)
    next
      case True
      let ?s1 = "load_directory_to_playlist env d s"
      show ?thesis
      proof (cases "current_file_path ?s1")
        case None
        then show ?thesis
          using Some True reset [of ?s1]
          by (simp add: reload_current_directory_playlist_def cursor_inv_save_self Let_def)
      next
        case (Some p)
        show ?thesis
        proof (cases "in_playlist ?s1")
          case False
          then show ?thesis
            using \<open>reload_dir s = Some d\<close> True Some reset [of ?s1]
            by (simp add: reload_current_directory_playlist_def cursor_inv_save_self Let_def)
        next
          case inp: True
          show ?thesis
            using \<open>reload_dir s = Some d\<close> True Some inp
            by (auto simp: reload_current_directory_playlist_def cursor_inv_save_self Let_def
                  intro!: keep [of ?s1 p])
        qed
      qed
    qed
  qed
qed

lemma cursor_inv_new_player: "cursor_inv (new_player ld dev mem cur geom d)"
  by (intro cursor_inv_unselected) (simp_all add: new_player_def)

lemma cursor_inv_restore:
  assumes "restore_playlist env (new_player ld dev mem cur geom d) = Inr s"
  shows "cursor_inv s"
proof (cases "mem = []")
  case True
  then have "s = new_player ld dev mem cur geom d"
    using assms by (simp add: restore_playlist_def new_player_def)
  then show ?thesis by (simp add: cursor_inv_new_player)
next
  case False
  let ?s1 = "(new_player ld dev mem cur geom d)\<lparr> playlist := mem \<rparr>"
  have u: "cursor_inv ?s1" if "\<not> in_playlist ?s1"
    using that by (intro cursor_inv_unselected) (simp_all add: new_player_def)
  show ?thesis
  proof (cases "in_playlist ?s1")
    case False
    then have "s = ?s1"
      using assms \<open>mem \<noteq> []\<close>
      by (auto simp: restore_playlist_def new_player_def Let_def split: option.splits)
    then show ?thesis using u False by simp
  next
    case True
    then obtain p where p: "cur = Some p" "p \<in> set mem"
      by (auto simp: in_playlist_def new_player_def split: option.splits)
    let ?s2 = "?s1\<lparr> current_index := int (first_index mem p) \<rparr>"
    have i: "first_index mem p < length mem" and n: "mem ! first_index mem p = p"
      using p(2) by (simp_all add: first_index_less first_index_nth)
    have "playlist_file_double_clicked env p ?s2 = Inr s"
      using assms \<open>mem \<noteq> []\<close> p True
      by (simp add: restore_playlist_def new_player_def Let_def in_playlist_def)
    then have "s = play_file env (playlist ?s2 ! first_index mem p)
                     (?s2\<lparr> current_index := int (first_index mem p) \<rparr>)"
      using p(2) i by (simp add: playlist_file_double_clicked_def py_index_def new_player_def)
    moreover have "first_index mem p < length (playlist ?s2)" using i by (simp add: new_player_def)
    ultimately show ?thesis
      using cursor_inv_play_at [of "first_index mem p" ?s2 env] by (simp add: new_player_def)
  qed
qed

lemma cursor_inv_step:
  assumes "cursor_inv s" and "step env ev s = Inr s'"
  shows "cursor_inv s'"
proof (cases ev)
  case (OpenFile p)
  then show ?thesis using assms by (auto simp: cursor_inv_open_file)
next
  case Refresh
  then show ?thesis using assms by (auto simp: cursor_inv_reload)
next
  case (DoubleClick p)
  then show ?thesis using assms by (auto intro: cursor_inv_double_click)
next
  case Previous
  then show ?thesis using assms by (auto simp: cursor_inv_play_previous)
next
  case Next
  then show ?thesis using assms by (auto simp: cursor_inv_play_next)
next
  case PlayPause
  then have "s' = play_pause s" using assms(2) by simp
  then have "cursor_inv s' = cursor_inv s"
    by (intro cursor_inv_fields) (simp_all add: play_pause_def)
  then show ?thesis using assms(1) by simp
next
  case Stop
  then have "s' = stop s" using assms(2) by simp
  then have "cursor_inv s' = cursor_inv s"
    by (intro cursor_inv_fields) (simp_all add: stop_fields)
  then show ?thesis using assms(1) by simp
next
  case (SliderMoved pos)
  then have "s' = s\<lparr> player := player_setPosition pos (player s) \<rparr>" using assms(2) by simp
  then have "cursor_inv s' = cursor_inv s"
    by (intro cursor_inv_fields) simp_all
  then show ?thesis using assms(1) by simp
next
  case (MediaStatusChanged status)
  then show ?thesis
    using assms by (auto simp: handle_media_status_change_def cursor_inv_play_next split: if_splits)
next
  case CloseWindow
  then show ?thesis using assms by (auto simp: cursor_inv_save_self)
qed

lemma step_returns: "\<exists>s'. step env ev s = Inr s'"
  by (cases ev) (auto simp: playlist_file_double_clicked_def py_index_def)

text \<open>
  C6.  In every state the program reaches, at start-up and after every event, the
  cursor is \<open>-1\<close> if and only if the playlist is empty or no entry of it is the current
  file path; otherwise the cursor is an index of the playlist and the entry there is the
  current file path.
\<close>

theorem cursor_invariant:
  "reachable s \<Longrightarrow> cursor_inv s"
proof (induction rule: reachable.induct)
  case (start env ld dev mem cur geom d s)
  then show ?case by (rule cursor_inv_restore)
next
  case (event s env ev s')
  then show ?case by (auto intro: cursor_inv_step)
qed


text \<open>
  C6 on a reachable state: the player that started with two remembered tracks and no
  selection, after \<^verbatim>\<open>play_next\<close>.
\<close>

theorem cursor_invariant_witness:
  "reachable (play_next sample_env unselected_player)
   \<and> cursor_inv (play_next sample_env unselected_player)
   \<and> current_index (play_next sample_env unselected_player) = 0
   \<and> current_file_path (play_next sample_env unselected_player) = Some ''/m/a.mp3''"
proof -
  have "restore_playlist sample_env (new_player ''/m'' [] [''/m/a.mp3'', ''/m/b.mp3''] None ''AAAA'' None)
          = Inr unselected_player"
    by (simp add: restore_unselected unselected_player_def)
  then have "reachable unselected_player" by (rule reachable.start)
  moreover have "step sample_env Next unselected_player = Inr (play_next sample_env unselected_player)"
    by simp
  ultimately have r: "reachable (play_next sample_env unselected_player)"
    by (rule reachable.event)
  have "playlist unselected_player \<noteq> []" and "current_index unselected_player = - 1"
    and "playlist unselected_player ! 0 = ''/m/a.mp3''"
    by (simp_all add: unselected_player_def new_player_def)
  then have "current_index (play_next sample_env unselected_player) = 0"
    and "current_file_path (play_next sample_env unselected_player) = Some ''/m/a.mp3''"
    by (simp_all add: play_next_index play_next_path)
  then show ?thesis
    using r cursor_invariant [of "play_next sample_env unselected_player"] by simp
qed

end
